theory Spec2Isabelle
  imports Main "HOL-Library.Word" "HOL-Library.Signed_Division" "HOL-Library.Multiset"
    "HOL-Library.List_Lexorder" "HOL-Library.Char_ord"
begin

unbundle bit_operations_syntax

section \<open>Machine integers, time and the constants of the package\<close>

text \<open>
  Go's \<open>int32\<close> is a 32-bit word read as two's complement (\<open>sint\<close>); \<open>+\<close> wraps.
  Go's \<open>int\<close> fields of this package are only compared and printed, never added, and
  are modelled as \<open>int\<close>.
\<close>

type_synonym int32 = "32 word"
type_synonym byte = "8 word"

text \<open>
  \<open>time.Duration\<close> is a signed 64-bit count of nanoseconds. A \<open>time.Time\<close> is an
  instant with nanosecond resolution: the model is the number of nanoseconds since the
  Unix epoch (the location and the monotonic reading play no part in this package).
  Go keeps the seconds of an instant in 64 bits, counted from the year 1; the model is
  exact for every instant whose seconds, before and after \<open>Add\<close>, stay in that range.
\<close>

type_synonym Duration = "64 word"
type_synonym Time = int

definition Time_Unix :: "Time \<Rightarrow> int" where
  "Time_Unix t = t div 1000000000"

definition Time_Add :: "Time \<Rightarrow> Duration \<Rightarrow> Time" where
  "Time_Add t d = t + sint d"

text \<open>
  \<open>Time.Truncate\<close> rounds down to a multiple of \<open>d\<close> counted from Go's zero time
  (year 1), which lies 62135596800 seconds before the Unix epoch; for \<open>d \<le> 0\<close> the
  time is returned unchanged.
\<close>

definition unixToInternal :: int where
  "unixToInternal = 62135596800"

definition Time_Truncate :: "Time \<Rightarrow> Duration \<Rightarrow> Time" where
  "Time_Truncate t d =
     (if sint d \<le> 0 then t
      else t - (t + unixToInternal * 1000000000) mod sint d)"

text \<open>Go's \<open>/\<close> on \<open>int32\<close> truncates towards zero and wraps on overflow.\<close>

definition int32_div :: "int32 \<Rightarrow> int32 \<Rightarrow> int32" where
  "int32_div a b = word_of_int (sint a sdiv sint b)"

definition maxKeysPerPublish :: int where
  "maxKeysPerPublish = 21"

definition KeyLength :: nat where
  "KeyLength = 16"

definition MinTransmissionRisk :: int where
  "MinTransmissionRisk = 0"

definition MaxTransmissionRisk :: int where
  "MaxTransmissionRisk = 8"

definition MinIntervalCount :: int32 where
  "MinIntervalCount = 1"

definition MaxIntervalCount :: int32 where
  "MaxIntervalCount = 144"

definition intervalLength :: Duration where
  "intervalLength = 600000000000"

text \<open>
  \<open>intervalLength.Seconds()\<close> is the float 600.0 exactly, and its conversion to
  \<open>int32\<close> is 600: whole seconds of the duration.
\<close>

definition Duration_Seconds_int32 :: "Duration \<Rightarrow> int32" where
  "Duration_Seconds_int32 d = word_of_int (sint d sdiv 1000000000)"

section \<open>Data model\<close>

record ExposureKey =
  ek_Key :: string
  ek_IntervalNumber :: int32
  ek_IntervalCount :: int32
  ek_TransmissionRisk :: int

record Publish =
  Keys :: "ExposureKey list"
  Regions :: "string list"
  AppPackageName :: string
  Platform :: string
  DeviceVerificationPayload :: string
  VerificationPayload :: string
  Padding :: string

record Exposure =
  ex_ExposureKey :: "byte list"
  ex_TransmissionRisk :: int
  ex_AppPackageName :: string
  ex_Regions :: "string list"
  ex_IntervalNumber :: int32
  ex_IntervalCount :: int32
  ex_CreatedAt :: Time
  ex_LocalProvenance :: bool
  ex_FederationSyncID :: int

record Transformer =
  maxExposureKeys :: int
  maxIntervalStartAge :: Duration
  truncateWindow :: Duration

text \<open>
  The errors of the package are built with \<open>fmt.Errorf\<close>; one constructor stands for
  each error site and carries the values the message prints. \<open>IndexOutOfRange\<close> is the
  run-time panic of \<open>entities[0]\<close> on an empty slice.
\<close>

datatype error =
    CorruptInput
  | SyntaxError
  | InvalidKeyLength nat
  | InvalidIntervalCount int32
  | IntervalTooOld int32 int32
  | IntervalInFuture int32 int32
  | KeyStillValid int32 int32 int32
  | InvalidTransmissionRisk int
  | NoExposureKeys
  | TooManyKeys nat int
  | InvalidPublishData error
  | MisalignedOverlap int32 int32 int32
  | MaxExposureKeysOutOfRange int int
  | IndexOutOfRange

section \<open>Interval clock\<close>

definition IntervalNumber :: "Time \<Rightarrow> int32" where
  "IntervalNumber t =
     int32_div (word_of_int (Time_Unix t)) (Duration_Seconds_int32 intervalLength)"

definition TruncateWindow :: "Time \<Rightarrow> Duration \<Rightarrow> Time" where
  "TruncateWindow t d = Time_Truncate t d"

section \<open>The library functions the package calls\<close>

text \<open>
  \<open>strings.ToUpper\<close>: when every byte of the string is ASCII, the letters a to z are
  mapped to A to Z and every other byte is kept. A string with a byte from 128 on goes
  through the Unicode case mapping of the library (\<open>unicode.ToUpper\<close> on every rune,
  invalid UTF-8 rewritten); its tables are not modelled, the mapping is the argument
  \<open>uni\<close>.
\<close>

definition upper_char :: "char \<Rightarrow> char" where
  "upper_char c =
     (if CHR ''a'' \<le> c \<and> c \<le> CHR ''z'' then char_of (of_char c - (32::nat)) else c)"

definition strings_ToUpper :: "(string \<Rightarrow> string) \<Rightarrow> string \<Rightarrow> string" where
  "strings_ToUpper uni s =
     (if \<forall>c \<in> set s. (of_char c :: nat) < 128 then map upper_char s else uni s)"

text \<open>
  \<open>strconv.ParseBool\<close> returns the value and an error; the error comes with the value
  false.
\<close>

definition strconv_ParseBool :: "string \<Rightarrow> bool \<times> error option" where
  "strconv_ParseBool s =
     (if s \<in> set [''1'', ''t'', ''T'', ''TRUE'', ''true'', ''True''] then (True, None)
      else if s \<in> set [''0'', ''f'', ''F'', ''FALSE'', ''false'', ''False''] then (False, None)
      else (False, Some SyntaxError))"

text \<open>
  The process environment is an explicit argument: a function from variable names to
  values, the empty string for a variable that is not set, as \<open>os.Getenv\<close> returns it.
\<close>

type_synonym environ = "string \<Rightarrow> string"

definition os_Getenv :: "environ \<Rightarrow> string \<Rightarrow> string" where
  "os_Getenv env name = env name"

text \<open>
  The insertion sort of package \<open>sort\<close>: element \<open>i\<close> is swapped towards the front
  while it is less than its left neighbour. \<open>bubble\<close> works on the sorted prefix
  written back to front.
\<close>

fun bubble :: "('a \<Rightarrow> 'a \<Rightarrow> bool) \<Rightarrow> 'a \<Rightarrow> 'a list \<Rightarrow> 'a list" where
  "bubble lt x [] = [x]"
| "bubble lt x (y # ys) = (if lt x y then y # bubble lt x ys else x # y # ys)"

definition insertionSort :: "('a \<Rightarrow> 'a \<Rightarrow> bool) \<Rightarrow> 'a list \<Rightarrow> 'a list" where
  "insertionSort lt xs = rev (foldl (\<lambda>pre x. bubble lt x pre) [] xs)"

text \<open>
  \<open>sort.Slice\<close> is not stable. On a slice of at most 6 elements every version of the
  library runs the insertion sort alone (before Go 1.19 a pass that swaps elements six
  apart comes first on longer slices, and above 12 elements a quicksort; from Go 1.19
  on the insertion sort is used up to 12 elements and a pattern-defeating quicksort
  above). What the library returns on a longer slice is the argument \<open>long\<close>; all that
  is known of it is the contract \<open>sorts_long\<close>: the result is a permutation of the slice
  in which no element is less than an earlier one.
\<close>

definition sort_Slice ::
  "(('a \<Rightarrow> 'a \<Rightarrow> bool) \<Rightarrow> 'a list \<Rightarrow> 'a list) \<Rightarrow> ('a \<Rightarrow> 'a \<Rightarrow> bool) \<Rightarrow> 'a list \<Rightarrow> 'a list" where
  "sort_Slice long lt xs = (if length xs \<le> 6 then insertionSort lt xs else long lt xs)"

definition sorts_long ::
  "('a \<Rightarrow> 'a \<Rightarrow> bool) \<Rightarrow> (('a \<Rightarrow> 'a \<Rightarrow> bool) \<Rightarrow> 'a list \<Rightarrow> 'a list) \<Rightarrow> bool" where
  "sorts_long lt long \<longleftrightarrow>
     (\<forall>xs. mset (long lt xs) = mset xs \<and> sorted_wrt (\<lambda>a b. \<not> lt b a) (long lt xs))"

text \<open>
  \<open>sort.Strings\<close> sorts strings in increasing order. Equal strings cannot be told
  apart, so every sorting algorithm returns the same slice: the one of the insertion
  sort.
\<close>

definition sort_Strings :: "string list \<Rightarrow> string list" where
  "sort_Strings xs = insertionSort (\<lambda>a b. a < b) xs"

text \<open>
  Modelled from the spec: \<open>base64util.DecodeString\<close> is not among the sources. The
  spec says of it "Decode the key's transport encoding to raw bytes; fail if decoding
  fails", and the comment on \<open>ExposureKey\<close> names the encoding: base64 (RFC 4648) with
  padding. The functions of the package take the decoder as an argument; this one is
  the decoder of the examples.
\<close>

definition encodeStd :: string where
  "encodeStd = ''ABCDEFGHIJKLMNOPQRSTUVWXYZabcdefghijklmnopqrstuvwxyz0123456789+/''"

fun index_of :: "'a \<Rightarrow> 'a list \<Rightarrow> nat option" where
  "index_of x [] = None"
| "index_of x (y # ys) =
     (if x = y then Some 0 else map_option Suc (index_of x ys))"

definition sextets :: "string \<Rightarrow> nat list option" where
  "sextets s =
     (if \<forall>c \<in> set s. index_of c encodeStd \<noteq> None
      then Some (map (\<lambda>c. the (index_of c encodeStd)) s) else None)"

fun base64util_DecodeString :: "string \<Rightarrow> error + byte list" where
  "base64util_DecodeString [] = Inr []"
| "base64util_DecodeString (a # b # c # d # rest) =
     (if rest = [] \<and> c = CHR ''='' \<and> d = CHR ''='' then
        (case sextets [a, b] of
           Some [x, y] \<Rightarrow> Inr [of_nat (x * 4 + y div 16)]
         | _ \<Rightarrow> Inl CorruptInput)
      else if rest = [] \<and> d = CHR ''='' then
        (case sextets [a, b, c] of
           Some [x, y, z] \<Rightarrow>
             Inr [of_nat (x * 4 + y div 16), of_nat (y mod 16 * 16 + z div 4)]
         | _ \<Rightarrow> Inl CorruptInput)
      else
        (case sextets [a, b, c, d] of
           Some [x, y, z, w] \<Rightarrow>
             (case base64util_DecodeString rest of
                Inl err \<Rightarrow> Inl err
              | Inr bs \<Rightarrow>
                  Inr (of_nat (x * 4 + y div 16) # of_nat (y mod 16 * 16 + z div 4)
                        # of_nat (z mod 4 * 64 + w) # bs))
         | _ \<Rightarrow> Inl CorruptInput))"
| "base64util_DecodeString _ = Inl CorruptInput"

section \<open>Transformer\<close>

definition NewTransformer :: "int \<Rightarrow> Duration \<Rightarrow> Duration \<Rightarrow> error + Transformer" where
  "NewTransformer maxExposureKeys' maxIntervalStartAge' truncateWindow' =
     (if maxExposureKeys' < 0 \<or> maxExposureKeys' > maxKeysPerPublish
      then Inl (MaxExposureKeysOutOfRange maxKeysPerPublish maxExposureKeys')
      else Inr \<lparr> maxExposureKeys = maxExposureKeys',
                 maxIntervalStartAge = maxIntervalStartAge',
                 truncateWindow = truncateWindow' \<rparr>)"

text \<open>
  The decoder of the key (\<open>base64util.DecodeString\<close> in the source) is the argument
  \<open>dec\<close>; it returns the bytes or its error.
\<close>

type_synonym decoder = "string \<Rightarrow> error + byte list"

definition TransformExposureKey ::
  "decoder \<Rightarrow> environ \<Rightarrow> ExposureKey \<Rightarrow> string \<Rightarrow> string list \<Rightarrow> Time \<Rightarrow> int32 \<Rightarrow> int32
     \<Rightarrow> error + Exposure" where
  "TransformExposureKey dec env exposureKey appPackageName upcaseRegions createdAt
       minIntervalNumber maxIntervalNumber =
     (case dec (ek_Key exposureKey) of
        Inl err \<Rightarrow> Inl err
      | Inr binKey \<Rightarrow>
          if length binKey \<noteq> KeyLength then Inl (InvalidKeyLength (length binKey))
          else if sint (ek_IntervalCount exposureKey) < sint MinIntervalCount
                \<or> sint (ek_IntervalCount exposureKey) > sint MaxIntervalCount
            then Inl (InvalidIntervalCount (ek_IntervalCount exposureKey))
          else if sint (ek_IntervalNumber exposureKey) < sint minIntervalNumber
            then Inl (IntervalTooOld (ek_IntervalNumber exposureKey) minIntervalNumber)
          else if sint (ek_IntervalNumber exposureKey) \<ge> sint maxIntervalNumber
            then Inl (IntervalInFuture (ek_IntervalNumber exposureKey) maxIntervalNumber)
          else
            let skip = fst (strconv_ParseBool (os_Getenv env ''SKIP_KEY_DATE_VALIDATION''))
            in if \<not> skip \<and>
                  sint (ek_IntervalNumber exposureKey + ek_IntervalCount exposureKey)
                    > sint maxIntervalNumber
              then Inl (KeyStillValid (ek_IntervalNumber exposureKey)
                          (ek_IntervalCount exposureKey) maxIntervalNumber)
            else if ek_TransmissionRisk exposureKey < MinTransmissionRisk
                  \<or> ek_TransmissionRisk exposureKey > MaxTransmissionRisk
              then Inl (InvalidTransmissionRisk (ek_TransmissionRisk exposureKey))
            else Inr \<lparr> ex_ExposureKey = binKey,
                       ex_TransmissionRisk = ek_TransmissionRisk exposureKey,
                       ex_AppPackageName = appPackageName,
                       ex_Regions = upcaseRegions,
                       ex_IntervalNumber = ek_IntervalNumber exposureKey,
                       ex_IntervalCount = ek_IntervalCount exposureKey,
                       ex_CreatedAt = createdAt,
                       ex_LocalProvenance = True,
                       ex_FederationSyncID = 0 \<rparr>)"

text \<open>
  The loop over the keys of the request: the first key that fails ends the loop with its
  error wrapped, otherwise the record is appended to \<open>entities\<close>.
\<close>

fun transformKeys ::
  "(ExposureKey \<Rightarrow> error + Exposure) \<Rightarrow> ExposureKey list \<Rightarrow> Exposure list
     \<Rightarrow> error + Exposure list" where
  "transformKeys f [] entities = Inr entities"
| "transformKeys f (exposureKey # rest) entities =
     (case f exposureKey of
        Inl err \<Rightarrow> Inl (InvalidPublishData err)
      | Inr exposure \<Rightarrow> transformKeys f rest (entities @ [exposure]))"

text \<open>The comparison handed to \<open>sort.Slice\<close>: by interval number, then by count.\<close>

definition entityLess :: "Exposure \<Rightarrow> Exposure \<Rightarrow> bool" where
  "entityLess a b =
     (if ex_IntervalNumber a = ex_IntervalNumber b
      then sint (ex_IntervalCount a) < sint (ex_IntervalCount b)
      else sint (ex_IntervalNumber a) < sint (ex_IntervalNumber b))"

text \<open>
  The overlap scan. Its state is the running count of start intervals (a Go map, read
  with the default 0), \<open>lastInterval\<close> and \<open>nextInterval\<close>.
\<close>

type_synonym scanState = "(int32 \<Rightarrow> int) \<times> int32 \<times> int32"

fun overlapScan :: "scanState \<Rightarrow> Exposure list \<Rightarrow> error + scanState" where
  "overlapScan (startIntervals, lastInterval, nextInterval) [] =
     Inr (startIntervals, lastInterval, nextInterval)"
| "overlapScan (startIntervals, lastInterval, nextInterval) (ex # rest) =
     (let startIntervals' =
            startIntervals(ex_IntervalNumber ex := startIntervals (ex_IntervalNumber ex) + 1)
      in if ex_IntervalNumber ex = lastInterval
         then overlapScan
                (startIntervals', lastInterval, ex_IntervalNumber ex + ex_IntervalCount ex) rest
         else if sint (ex_IntervalNumber ex) < sint nextInterval
         then Inl (MisalignedOverlap (ex_IntervalNumber ex) lastInterval nextInterval)
         else overlapScan
                (startIntervals', ex_IntervalNumber ex,
                 ex_IntervalNumber ex + ex_IntervalCount ex) rest)"

text \<open>
  \<open>TransformPublish\<close>. Besides the decoder and the environment, the arguments \<open>uni\<close>
  and \<open>long\<close> stand for the parts of \<open>strings.ToUpper\<close> and \<open>sort.Slice\<close> described
  above. The slice \<open>entities\<close> is sorted in place, so the sorted slice is what is
  returned.
\<close>

definition TransformPublish ::
  "decoder \<Rightarrow> environ \<Rightarrow> (string \<Rightarrow> string)
     \<Rightarrow> ((Exposure \<Rightarrow> Exposure \<Rightarrow> bool) \<Rightarrow> Exposure list \<Rightarrow> Exposure list)
     \<Rightarrow> Transformer \<Rightarrow> Publish \<Rightarrow> Time \<Rightarrow> error + Exposure list" where
  "TransformPublish dec env uni long t inData batchTime =
     (if length (Keys inData) = 0 then Inl NoExposureKeys
      else if int (length (Keys inData)) > maxExposureKeys t
        then Inl (TooManyKeys (length (Keys inData)) (maxExposureKeys t))
      else
        let createdAt = TruncateWindow batchTime (truncateWindow t);
            minIntervalNumber =
              IntervalNumber (Time_Add batchTime (- 1 * maxIntervalStartAge t));
            maxIntervalNumber = IntervalNumber batchTime;
            upcaseRegions = map (strings_ToUpper uni) (Regions inData)
        in case transformKeys
                  (\<lambda>exposureKey. TransformExposureKey dec env exposureKey
                      (AppPackageName inData) upcaseRegions createdAt
                      minIntervalNumber maxIntervalNumber)
                  (Keys inData) [] of
             Inl err \<Rightarrow> Inl err
           | Inr entities \<Rightarrow>
               (case sort_Slice long entityLess entities of
                  [] \<Rightarrow> Inl IndexOutOfRange
                | first # others \<Rightarrow>
                    (case overlapScan
                            (\<lambda>_. 0, ex_IntervalNumber first,
                             ex_IntervalNumber first + ex_IntervalCount first)
                            (first # others) of
                       Inl err \<Rightarrow> Inl err
                     | Inr _ \<Rightarrow> Inr (first # others))))"

section \<open>Canonicalizer\<close>

text \<open>
  \<open>sha256.Sum256\<close> is the hash SHA-256 of FIPS 180-4 on 32-bit words: the message is
  padded to whole blocks of 64 bytes, each block extends to a schedule of 64 words and
  runs through 64 rounds.
\<close>

type_synonym u32 = "32 word"
type_synonym sha_state = "u32 \<times> u32 \<times> u32 \<times> u32 \<times> u32 \<times> u32 \<times> u32 \<times> u32"

definition rotr :: "nat \<Rightarrow> u32 \<Rightarrow> u32" where
  "rotr n x = drop_bit n x OR push_bit (32 - n) x"

definition Ch :: "u32 \<Rightarrow> u32 \<Rightarrow> u32 \<Rightarrow> u32" where
  "Ch x y z = (x AND y) XOR (NOT x AND z)"
definition Maj :: "u32 \<Rightarrow> u32 \<Rightarrow> u32 \<Rightarrow> u32" where
  "Maj x y z = (x AND y) XOR (x AND z) XOR (y AND z)"
definition Sigma0 :: "u32 \<Rightarrow> u32" where
  "Sigma0 x = rotr 2 x XOR rotr 13 x XOR rotr 22 x"
definition Sigma1 :: "u32 \<Rightarrow> u32" where
  "Sigma1 x = rotr 6 x XOR rotr 11 x XOR rotr 25 x"
definition sigma0 :: "u32 \<Rightarrow> u32" where
  "sigma0 x = rotr 7 x XOR rotr 18 x XOR drop_bit 3 x"
definition sigma1 :: "u32 \<Rightarrow> u32" where
  "sigma1 x = rotr 17 x XOR rotr 19 x XOR drop_bit 10 x"

definition sha256_K :: "u32 list" where
  "sha256_K = [
   1116352408, 1899447441, 3049323471, 3921009573, 961987163, 1508970993, 2453635748, 2870763221,
   3624381080, 310598401, 607225278, 1426881987, 1925078388, 2162078206, 2614888103, 3248222580,
   3835390401, 4022224774, 264347078, 604807628, 770255983, 1249150122, 1555081692, 1996064986,
   2554220882, 2821834349, 2952996808, 3210313671, 3336571891, 3584528711, 113926993, 338241895,
   666307205, 773529912, 1294757372, 1396182291, 1695183700, 1986661051, 2177026350, 2456956037,
   2730485921, 2820302411, 3259730800, 3345764771, 3516065817, 3600352804, 4094571909, 275423344,
   430227734, 506948616, 659060556, 883997877, 958139571, 1322822218, 1537002063, 1747873779,
   1955562222, 2024104815, 2227730452, 2361852424, 2428436474, 2756734187, 3204031479, 3329325298]"

definition sha256_init :: sha_state where
  "sha256_init = (1779033703, 3144134277, 1013904242, 2773480762, 1359893119, 2600822924, 528734635, 1541459225)"

text \<open>Message schedule, kept newest word first.\<close>
fun schedule :: "nat \<Rightarrow> u32 list \<Rightarrow> u32 list" where
  "schedule 0 ws = ws"
| "schedule (Suc n) ws =
     schedule n ((sigma1 (ws ! 1) + ws ! 6 + sigma0 (ws ! 14) + ws ! 15) # ws)"

definition sha_round :: "sha_state \<Rightarrow> u32 \<times> u32 \<Rightarrow> sha_state" where
  "sha_round s kw =
     (case s of (a, b, c, d, e, f, g, h) \<Rightarrow>
      let t1 = h + Sigma1 e + Ch e f g + fst kw + snd kw;
          t2 = Sigma0 a + Maj a b c
      in (t1 + t2, a, b, c, d + t1, e, f, g))"

definition sha_add :: "sha_state \<Rightarrow> sha_state \<Rightarrow> sha_state" where
  "sha_add s s' =
     (case s of (a, b, c, d, e, f, g, h) \<Rightarrow>
      case s' of (a', b', c', d', e', f', g', h') \<Rightarrow>
        (a + a', b + b', c + c', d + d', e + e', f + f', g + g', h + h'))"

fun be32 :: "byte list \<Rightarrow> u32 list" where
  "be32 (b0 # b1 # b2 # b3 # bs) =
     (push_bit 24 (ucast b0) OR push_bit 16 (ucast b1) OR push_bit 8 (ucast b2) OR ucast b3) # be32 bs"
| "be32 bs = []"

definition sha_block :: "sha_state \<Rightarrow> byte list \<Rightarrow> sha_state" where
  "sha_block hs blk =
     (let ws = rev (schedule 48 (rev (be32 blk)))
      in sha_add hs (foldl sha_round hs (zip sha256_K ws)))"

function sha_blocks :: "sha_state \<Rightarrow> byte list \<Rightarrow> sha_state" where
  "sha_blocks hs bs = (if length bs < 64 then hs else sha_blocks (sha_block hs (take 64 bs)) (drop 64 bs))"
  by pat_completeness auto
termination by (relation "measure (\<lambda>(hs, bs). length bs)") auto

definition be64_bytes :: "64 word \<Rightarrow> byte list" where
  "be64_bytes w = map (\<lambda>n. ucast (drop_bit n w)) [56, 48, 40, 32, 24, 16, 8, 0]"

definition sha_pad :: "byte list \<Rightarrow> byte list" where
  "sha_pad m = m @ [0x80] @ replicate ((64 - (length m + 9) mod 64) mod 64) 0 @ be64_bytes (of_nat (8 * length m))"

definition word_bytes :: "u32 \<Rightarrow> byte list" where
  "word_bytes w = [ucast (drop_bit 24 w), ucast (drop_bit 16 w), ucast (drop_bit 8 w), ucast w]"

definition sha256_Sum256 :: "byte list \<Rightarrow> byte list" where
  "sha256_Sum256 m =
     (case sha_blocks sha256_init (sha_pad m) of (a, b, c, d, e, f, g, h) \<Rightarrow>
        concat (map word_bytes [a, b, c, d, e, f, g, h]))"

text \<open>\<open>base64.StdEncoding.EncodeToString\<close>: three bytes give four characters, padded with \<open>=\<close>.\<close>

definition encodeChar :: "byte \<Rightarrow> char" where
  "encodeChar v = encodeStd ! unat v"

fun base64_EncodeToString :: "byte list \<Rightarrow> string" where
  "base64_EncodeToString [] = []"
| "base64_EncodeToString [a] =
     [encodeChar (drop_bit 2 a), encodeChar (push_bit 4 (a AND 3)), CHR ''='', CHR ''='']"
| "base64_EncodeToString [a, b] =
     [encodeChar (drop_bit 2 a), encodeChar (push_bit 4 (a AND 3) OR drop_bit 4 b),
      encodeChar (push_bit 2 (b AND 15)), CHR ''='']"
| "base64_EncodeToString (a # b # c # rest) =
     encodeChar (drop_bit 2 a) # encodeChar (push_bit 4 (a AND 3) OR drop_bit 4 b)
       # encodeChar (push_bit 2 (b AND 15) OR drop_bit 6 c) # encodeChar (c AND 63)
       # base64_EncodeToString rest"

text \<open>The bytes of a Go string.\<close>

definition bytes_of :: "string \<Rightarrow> byte list" where
  "bytes_of s = map of_char s"

text \<open>The verb \<open>%v\<close> prints an integer in decimal, with a minus sign when negative.\<close>

fun natDigits :: "nat \<Rightarrow> string" where
  "natDigits n =
     (if n < 10 then [char_of (48 + n)] else natDigits (n div 10) @ [char_of (48 + n mod 10)])"

definition strconv_FormatInt :: "int \<Rightarrow> string" where
  "strconv_FormatInt i = (if i < 0 then CHR ''-'' # natDigits (nat (- i)) else natDigits (nat i))"

fun strings_Join :: "string list \<Rightarrow> string \<Rightarrow> string" where
  "strings_Join [] sep = []"
| "strings_Join [x] sep = x"
| "strings_Join (x # y # ys) sep = x @ sep @ strings_Join (y # ys) sep"

definition keyLess :: "ExposureKey \<Rightarrow> ExposureKey \<Rightarrow> bool" where
  "keyLess a b = (ek_Key a < ek_Key b)"

type_synonym keySort = "(ExposureKey \<Rightarrow> ExposureKey \<Rightarrow> bool) \<Rightarrow> ExposureKey list \<Rightarrow> ExposureKey list"

definition sortedKeys :: "keySort \<Rightarrow> Publish \<Rightarrow> ExposureKey list" where
  "sortedKeys long p = sort_Slice long keyLess (Keys p)"

definition sortedRegions :: "(string \<Rightarrow> string) \<Rightarrow> Publish \<Rightarrow> string list" where
  "sortedRegions uni p = sort_Strings (map (strings_ToUpper uni) (Regions p))"

definition renderKey :: "ExposureKey \<Rightarrow> string" where
  "renderKey k =
     ek_Key k @ ''.'' @ strconv_FormatInt (sint (ek_IntervalNumber k)) @ ''.'' @
     strconv_FormatInt (sint (ek_IntervalCount k)) @ ''.'' @
     strconv_FormatInt (ek_TransmissionRisk k)"

definition cleartext :: "(string \<Rightarrow> string) \<Rightarrow> keySort \<Rightarrow> Publish \<Rightarrow> string" where
  "cleartext uni long p =
     AppPackageName p @ ''|'' @
     strings_Join (map renderKey (sortedKeys long p)) '','' @ ''|'' @
     strings_Join (sortedRegions uni p) '','' @ ''|'' @
     VerificationPayload p"

definition AndroidNonce :: "(string \<Rightarrow> string) \<Rightarrow> keySort \<Rightarrow> Publish \<Rightarrow> string" where
  "AndroidNonce uni long p =
     base64_EncodeToString (sha256_Sum256 (bytes_of (cleartext uni long p)))"

text \<open>
  The canonical cleartext in the words of the specification, for a list of keys and a
  list of regions already put in order: each key rendered as \<open>key.number.count.risk\<close>,
  the keys joined by commas, the regions joined by commas, the four fields joined by
  \<open>|\<close>.
\<close>

definition spec_join :: "string \<Rightarrow> string list \<Rightarrow> string" where
  "spec_join sep xs = (case xs of [] \<Rightarrow> [] | x # ys \<Rightarrow> x @ concat (map (\<lambda>y. sep @ y) ys))"

definition spec_cleartext :: "string \<Rightarrow> ExposureKey list \<Rightarrow> string list \<Rightarrow> string \<Rightarrow> string" where
  "spec_cleartext app ks rs payload =
     spec_join ''|'' [app, spec_join '','' (map renderKey ks), spec_join '','' rs, payload]"

section \<open>The per-key call of a batch, and example requests\<close>

abbreviation keyResult ::
  "decoder \<Rightarrow> environ \<Rightarrow> (string \<Rightarrow> string) \<Rightarrow> Transformer \<Rightarrow> Publish \<Rightarrow> Time
     \<Rightarrow> ExposureKey \<Rightarrow> error + Exposure" where
  "keyResult dec env uni t inData batchTime exposureKey \<equiv>
     TransformExposureKey dec env exposureKey (AppPackageName inData)
       (map (strings_ToUpper uni) (Regions inData)) (TruncateWindow batchTime (truncateWindow t))
       (IntervalNumber (Time_Add batchTime (- 1 * maxIntervalStartAge t)))
       (IntervalNumber batchTime)"

text \<open>Signed reading of the interval a key or a record covers: start and end.\<close>

definition keyStart :: "ExposureKey \<Rightarrow> int" where
  "keyStart k = sint (ek_IntervalNumber k)"

definition keyEnd :: "ExposureKey \<Rightarrow> int" where
  "keyEnd k = sint (ek_IntervalNumber k) + sint (ek_IntervalCount k)"

definition exStart :: "Exposure \<Rightarrow> int" where
  "exStart e = sint (ex_IntervalNumber e)"

definition exEnd :: "Exposure \<Rightarrow> int" where
  "exEnd e = sint (ex_IntervalNumber e) + sint (ex_IntervalCount e)"

text \<open>The record a key becomes once its checks have passed.\<close>

definition recordOf ::
  "decoder \<Rightarrow> (string \<Rightarrow> string) \<Rightarrow> Transformer \<Rightarrow> Publish \<Rightarrow> Time \<Rightarrow> ExposureKey \<Rightarrow> Exposure" where
  "recordOf dec uni t inData batchTime k =
     \<lparr> ex_ExposureKey = projr (dec (ek_Key k)),
       ex_TransmissionRisk = ek_TransmissionRisk k,
       ex_AppPackageName = AppPackageName inData,
       ex_Regions = map (strings_ToUpper uni) (Regions inData),
       ex_IntervalNumber = ek_IntervalNumber k,
       ex_IntervalCount = ek_IntervalCount k,
       ex_CreatedAt = TruncateWindow batchTime (truncateWindow t),
       ex_LocalProvenance = True,
       ex_FederationSyncID = 0 \<rparr>"

text \<open>
  The batch time of the examples is 2021-06-01T00:00:00Z, interval 2704176; the
  transformer accepts 21 keys that start at most 14 days back and truncates to an hour.
\<close>

definition batchTime0 :: Time where
  "batchTime0 = 1622505600000000000"

definition transformer0 :: Transformer where
  "transformer0 = \<lparr> maxExposureKeys = 21, maxIntervalStartAge = 1209600000000000,
                     truncateWindow = 3600000000000 \<rparr>"

definition env0 :: environ where
  "env0 = (\<lambda>_. [])"

definition envSkip :: environ where
  "envSkip = (\<lambda>name. if name = ''SKIP_KEY_DATE_VALIDATION'' then ''true'' else [])"

definition uni0 :: "string \<Rightarrow> string" where
  "uni0 s = s"

definition mkKey :: "string \<Rightarrow> int32 \<Rightarrow> int32 \<Rightarrow> int \<Rightarrow> ExposureKey" where
  "mkKey k n c r =
     \<lparr> ek_Key = k, ek_IntervalNumber = n, ek_IntervalCount = c, ek_TransmissionRisk = r \<rparr>"

definition mkPublish :: "ExposureKey list \<Rightarrow> string list \<Rightarrow> Publish" where
  "mkPublish ks rs =
     \<lparr> Keys = ks, Regions = rs, AppPackageName = ''com.example.app'',
       Platform = ''android'', DeviceVerificationPayload = [],
       VerificationPayload = ''payload'', Padding = [] \<rparr>"

definition keyA :: string where
  "keyA = ''AAECAwQFBgcICQoLDA0ODw==''"

definition keyB :: string where
  "keyB = ''EBESExQVFhcYGRobHB0eHw==''"

section \<open>Properties of the interval clock\<close>

lemma Duration_Seconds_intervalLength: "Duration_Seconds_int32 intervalLength = 600"
  by (simp add: Duration_Seconds_int32_def intervalLength_def signed_divide_int_def)

lemma signed_take_bit_31_range:
  "- 2147483648 \<le> signed_take_bit 31 (k::int)" "signed_take_bit 31 (k::int) < 2147483648"
  using signed_take_bit_int_greater_eq_minus_exp [of 31 k]
    signed_take_bit_int_less_exp [of 31 k] by simp_all

lemma signed_take_bit_31_mod:
  "signed_take_bit 31 (k::int) = (k + 2147483648) mod 4294967296 - 2147483648"
  by (simp add: signed_take_bit_eq_take_bit_shift take_bit_eq_mod)

lemma sint_IntervalNumber:
  "sint (IntervalNumber t) = signed_take_bit 31 (Time_Unix t) sdiv 600"
proof -
  define s :: int where "s = signed_take_bit 31 (Time_Unix t)"
  have rng: "- 2147483648 \<le> s" "s < 2147483648"
    unfolding s_def by (rule signed_take_bit_31_range)+
  have q: "- 2147483648 \<le> s sdiv 600" "s sdiv 600 < 2147483648"
    using rng by (auto simp: signed_divide_int_def sgn_if)
  have "sint (word_of_int (Time_Unix t) :: int32) = s"
    by (simp add: s_def sint_sbintrunc')
  then have "IntervalNumber t = word_of_int (s sdiv 600)"
    by (simp add: IntervalNumber_def int32_div_def Duration_Seconds_intervalLength)
  moreover have "signed_take_bit 31 (s sdiv 600) = s sdiv 600"
  proof (rule signed_take_bit_int_eq_self)
    show "- (2 ^ 31) \<le> s sdiv 600" using q by simp
    show "s sdiv 600 < 2 ^ 31" using q by simp
  qed
  ultimately show ?thesis
    by (simp add: s_def sint_sbintrunc')
qed

lemma IntervalNumber_bounds:
  "- 3579139 \<le> sint (IntervalNumber t)" "sint (IntervalNumber t) \<le> 3579139"
proof -
  define s :: int where "s = signed_take_bit 31 (Time_Unix t)"
  have rng: "- 2147483648 \<le> s" "s < 2147483648"
    unfolding s_def by (rule signed_take_bit_31_range)+
  have e: "sint (IntervalNumber t) = s sdiv 600"
    by (simp add: sint_IntervalNumber s_def)
  show "- 3579139 \<le> sint (IntervalNumber t)" "sint (IntervalNumber t) \<le> 3579139"
    unfolding e using rng by (auto simp: signed_divide_int_def sgn_if)
qed




section \<open>Construction of the transformer\<close>

text \<open>
  C9. \<open>NewTransformer\<close> fails exactly when \<open>maxExposureKeys\<close> is negative or above 21.
  With \<open>maxExposureKeys = 0\<close> it succeeds, and the transformer it returns rejects every
  request that has a key with the too-many-keys error.
\<close>

theorem NewTransformer_range:
  "(isl (NewTransformer m age win) \<longleftrightarrow> m < 0 \<or> m > 21) \<and>
   (\<exists>t. NewTransformer 0 age win = Inr t \<and>
      (\<forall>dec env uni long p batchTime. Keys p \<noteq> [] \<longrightarrow>
         TransformPublish dec env uni long t p batchTime
           = Inl (TooManyKeys (length (Keys p)) 0)))"
  by (simp add: NewTransformer_def maxKeysPerPublish_def TransformPublish_def)

theorem NewTransformer_range_witness:
  "isl (NewTransformer 22 0 0) \<and> (22::int) > 21 \<and>
   NewTransformer 0 0 0 = Inr \<lparr> maxExposureKeys = 0, maxIntervalStartAge = 0, truncateWindow = 0 \<rparr> \<and>
   Keys (mkPublish [mkKey keyA 2704032 144 3] [''us'']) \<noteq> [] \<and>
   TransformPublish base64util_DecodeString env0 uni0 insertionSort
     \<lparr> maxExposureKeys = 0, maxIntervalStartAge = 0, truncateWindow = 0 \<rparr>
     (mkPublish [mkKey keyA 2704032 144 3] [''us'']) batchTime0 = Inl (TooManyKeys 1 0)"
  using NewTransformer_range [of 22 0 0] NewTransformer_range [of 0 0 0]
  by (auto simp: NewTransformer_def maxKeysPerPublish_def mkPublish_def)

section \<open>Sorting\<close>

lemma mset_bubble: "mset (bubble lt x ys) = add_mset x (mset ys)"
  by (induction ys) auto

lemma mset_foldl_bubble:
  "mset (foldl (\<lambda>pre x. bubble lt x pre) acc xs) = mset acc + mset xs"
  by (induction xs arbitrary: acc) (auto simp: mset_bubble)

lemma mset_insertionSort: "mset (insertionSort lt xs) = mset xs"
  by (simp add: insertionSort_def mset_foldl_bubble)

lemma set_bubble: "set (bubble lt x ys) = insert x (set ys)"
  using mset_bubble [of lt x ys] by (metis set_mset_add_mset_insert set_mset_mset)

lemma sorted_bubble:
  assumes asym: "\<forall>a b. lt a b \<longrightarrow> \<not> lt b a"
    and negtrans: "\<forall>a b c. \<not> lt a b \<longrightarrow> \<not> lt b c \<longrightarrow> \<not> lt a c"
  shows "sorted_wrt (\<lambda>a b. \<not> lt a b) ys \<Longrightarrow> sorted_wrt (\<lambda>a b. \<not> lt a b) (bubble lt x ys)"
proof (induction ys)
  case Nil
  then show ?case by simp
next
  case (Cons y ys)
  show ?case
  proof (cases "lt x y")
    case True
    have "\<forall>z\<in>set (bubble lt x ys). \<not> lt y z"
      using Cons.prems True asym by (auto simp: set_bubble)
    then show ?thesis using True Cons by simp
  next
    case False
    have "\<forall>z\<in>set ys. \<not> lt x z"
      using Cons.prems False negtrans by auto
    then show ?thesis using False Cons.prems by simp
  qed
qed

lemma sorted_foldl_bubble:
  assumes asym: "\<forall>a b. lt a b \<longrightarrow> \<not> lt b a"
    and negtrans: "\<forall>a b c. \<not> lt a b \<longrightarrow> \<not> lt b c \<longrightarrow> \<not> lt a c"
  shows "sorted_wrt (\<lambda>a b. \<not> lt a b) acc \<Longrightarrow>
         sorted_wrt (\<lambda>a b. \<not> lt a b) (foldl (\<lambda>pre x. bubble lt x pre) acc xs)"
proof (induction xs arbitrary: acc)
  case Nil
  then show ?case by simp
next
  case (Cons x xs)
  have "sorted_wrt (\<lambda>a b. \<not> lt a b) (bubble lt x acc)"
    by (rule sorted_bubble [OF asym negtrans Cons.prems])
  then have "sorted_wrt (\<lambda>a b. \<not> lt a b) (foldl (\<lambda>pre x. bubble lt x pre) (bubble lt x acc) xs)"
    by (rule Cons.IH)
  then show ?case by simp
qed

lemma sorted_insertionSort:
  assumes asym: "\<forall>a b. lt a b \<longrightarrow> \<not> lt b a"
    and negtrans: "\<forall>a b c. \<not> lt a b \<longrightarrow> \<not> lt b c \<longrightarrow> \<not> lt a c"
  shows "sorted_wrt (\<lambda>a b. \<not> lt b a) (insertionSort lt xs)"
proof -
  have "sorted_wrt (\<lambda>a b. \<not> lt a b) []" by simp
  then have "sorted_wrt (\<lambda>a b. \<not> lt a b) (foldl (\<lambda>pre x. bubble lt x pre) [] xs)"
    by (rule sorted_foldl_bubble [OF asym negtrans])
  then show ?thesis
    by (simp add: insertionSort_def sorted_wrt_rev)
qed

lemma sorts_long_insertionSort:
  assumes asym: "\<forall>a b. lt a b \<longrightarrow> \<not> lt b a"
    and negtrans: "\<forall>a b c. \<not> lt a b \<longrightarrow> \<not> lt b c \<longrightarrow> \<not> lt a c"
  shows "sorts_long lt insertionSort"
proof -
  have "sorted_wrt (\<lambda>a b. \<not> lt b a) (insertionSort lt xs)" for xs
    by (rule sorted_insertionSort [OF asym negtrans])
  then show ?thesis
    by (simp add: sorts_long_def mset_insertionSort)
qed

lemma sint_inject: "sint (a::int32) = sint b \<longleftrightarrow> a = b"
  using signed_word_eqI [of a b, where ?'a = int] by auto

lemma entityLess_iff:
  "entityLess a b \<longleftrightarrow>
     sint (ex_IntervalNumber a) < sint (ex_IntervalNumber b) \<or>
     (sint (ex_IntervalNumber a) = sint (ex_IntervalNumber b) \<and>
      sint (ex_IntervalCount a) < sint (ex_IntervalCount b))"
  using sint_inject [of "ex_IntervalNumber a" "ex_IntervalNumber b"]
  by (cases "ex_IntervalNumber a = ex_IntervalNumber b") (simp_all add: entityLess_def)

lemma entityLess_asym: "entityLess a b \<Longrightarrow> \<not> entityLess b a"
  unfolding entityLess_iff by linarith

lemma entityLess_negtrans:
  "\<not> entityLess a b \<Longrightarrow> \<not> entityLess b c \<Longrightarrow> \<not> entityLess a c"
  unfolding entityLess_iff by linarith

lemma keyLess_order:
  "\<forall>a b. keyLess a b \<longrightarrow> \<not> keyLess b a"
  "\<forall>a b c. \<not> keyLess a b \<longrightarrow> \<not> keyLess b c \<longrightarrow> \<not> keyLess a c"
  by (auto simp: keyLess_def not_less)

lemma entityLess_order:
  "\<forall>a b. entityLess a b \<longrightarrow> \<not> entityLess b a"
  "\<forall>a b c. \<not> entityLess a b \<longrightarrow> \<not> entityLess b c \<longrightarrow> \<not> entityLess a c"
  using entityLess_asym entityLess_negtrans by blast+

lemma sorts_long_keyLess: "sorts_long keyLess insertionSort"
  by (rule sorts_long_insertionSort [OF keyLess_order])

lemma sorts_long_entityLess: "sorts_long entityLess insertionSort"
  by (rule sorts_long_insertionSort [OF entityLess_order])

lemma mset_sort_Slice: "sorts_long lt long \<Longrightarrow> mset (sort_Slice long lt xs) = mset xs"
  by (simp add: sort_Slice_def sorts_long_def mset_insertionSort)

lemma sorted_sort_Slice:
  assumes "sorts_long lt long"
    and asym: "\<forall>a b. lt a b \<longrightarrow> \<not> lt b a"
    and negtrans: "\<forall>a b c. \<not> lt a b \<longrightarrow> \<not> lt b c \<longrightarrow> \<not> lt a c"
  shows "sorted_wrt (\<lambda>a b. \<not> lt b a) (sort_Slice long lt xs)"
proof (cases "length xs \<le> 6")
  case True
  have "sorted_wrt (\<lambda>a b. \<not> lt b a) (insertionSort lt xs)"
    by (rule sorted_insertionSort [OF asym negtrans])
  then show ?thesis using True by (simp add: sort_Slice_def)
next
  case False
  have "sorted_wrt (\<lambda>a b. \<not> lt b a) (long lt xs)"
    using assms(1) unfolding sorts_long_def by blast
  then show ?thesis using False by (simp add: sort_Slice_def)
qed

lemma sorted_sort_Slice_entityLess:
  "sorts_long entityLess long \<Longrightarrow>
   sorted_wrt (\<lambda>a b. \<not> entityLess b a) (sort_Slice long entityLess xs)"
  by (rule sorted_sort_Slice [OF _ entityLess_order])

lemma sorted_sort_Slice_keyLess:
  assumes c: "sorts_long keyLess long"
  shows "sorted (map ek_Key (sort_Slice long keyLess xs))"
proof -
  have "sorted_wrt (\<lambda>a b. \<not> keyLess b a) (sort_Slice long keyLess xs)"
    by (rule sorted_sort_Slice [OF c keyLess_order])
  then show ?thesis
    by (simp add: sorted_map keyLess_def not_less)
qed

lemma sort_Strings_eq_sort: "sort_Strings xs = sort xs"
proof -
  have o: "\<forall>a b :: string. a < b \<longrightarrow> \<not> b < a"
    "\<forall>a b c :: string. \<not> a < b \<longrightarrow> \<not> b < c \<longrightarrow> \<not> a < c"
    by auto
  have "sorted_wrt (\<lambda>a b. \<not> b < a) (insertionSort (\<lambda>a b. a < b) xs)"
    by (rule sorted_insertionSort [OF o])
  then have "sorted (insertionSort (\<lambda>a b. a < b) xs)"
    by (simp add: not_less)
  then show ?thesis
    using properties_for_sort [of "insertionSort (\<lambda>a b. a < b) xs" xs]
    by (simp add: sort_Strings_def mset_insertionSort)
qed

section \<open>The checks of one key\<close>

lemma sint_add_int32:
  "sint (a + b :: int32) = (sint a + sint b + 2147483648) mod 4294967296 - 2147483648"
  by (simp add: sint_word_ariths signed_take_bit_31_mod)

lemma sint_add_small:
  assumes "- 2147483648 \<le> sint a + sint b" and "sint a + sint b \<le> 2147483647"
  shows "sint (a + b :: int32) = sint a + sint b"
  using assms by (simp add: sint_add_int32)

lemma sint_int32_range: "- 2147483648 \<le> sint (a :: int32)" "sint (a :: int32) \<le> 2147483647"
  using sint_ge [of a] sint_lt [of a] by simp_all

lemma still_valid_iff:
  assumes "1 \<le> sint c" and "sint c \<le> 144" and "sint i < sint (m :: int32)"
  shows "sint m < sint (i + c :: int32) \<longleftrightarrow>
           sint m < sint i + sint c \<and> sint i + sint c \<le> 2147483647"
proof (cases "sint i + sint c \<le> 2147483647")
  case True
  have "- 2147483648 \<le> sint i + sint c"
    using sint_int32_range(1) [of i] assms(1) by linarith
  then have "sint (i + c) = sint i + sint c"
    using True by (rule sint_add_small)
  then show ?thesis using True by simp
next
  case False
  have u: "sint i + sint c \<le> 2147483647 + 144"
    using sint_int32_range(2) [of i] assms(2) by linarith
  define y where "y = sint i + sint c - 2147483648"
  have y: "0 \<le> y" "y < 4294967296" using False u by (simp_all add: y_def)
  have "(y + 4294967296) mod 4294967296 = y"
    using y by simp
  moreover have "sint i + sint c + 2147483648 = y + 4294967296"
    by (simp add: y_def)
  ultimately have "sint (i + c) = y - 2147483648"
    by (simp only: sint_add_int32)
  then have "sint (i + c) = sint i + sint c - 4294967296"
    by (simp add: y_def)
  then show ?thesis
    using False u assms sint_int32_range(2) [of m] by linarith
qed

section \<open>The checks of one key\<close>

lemma TransformExposureKey_decoded:
  assumes "dec (ek_Key k) = Inr b"
  shows "TransformExposureKey dec env k app regs created mn mx =
     (if length b \<noteq> 16 then Inl (InvalidKeyLength (length b))
      else if sint (ek_IntervalCount k) < 1 \<or> 144 < sint (ek_IntervalCount k)
        then Inl (InvalidIntervalCount (ek_IntervalCount k))
      else if sint (ek_IntervalNumber k) < sint mn
        then Inl (IntervalTooOld (ek_IntervalNumber k) mn)
      else if sint mx \<le> sint (ek_IntervalNumber k)
        then Inl (IntervalInFuture (ek_IntervalNumber k) mx)
      else if \<not> fst (strconv_ParseBool (env ''SKIP_KEY_DATE_VALIDATION'')) \<and>
              sint mx < sint (ek_IntervalNumber k) + sint (ek_IntervalCount k) \<and>
              sint (ek_IntervalNumber k) + sint (ek_IntervalCount k) \<le> 2147483647
        then Inl (KeyStillValid (ek_IntervalNumber k) (ek_IntervalCount k) mx)
      else if ek_TransmissionRisk k < 0 \<or> 8 < ek_TransmissionRisk k
        then Inl (InvalidTransmissionRisk (ek_TransmissionRisk k))
      else Inr \<lparr> ex_ExposureKey = b, ex_TransmissionRisk = ek_TransmissionRisk k,
                 ex_AppPackageName = app, ex_Regions = regs,
                 ex_IntervalNumber = ek_IntervalNumber k,
                 ex_IntervalCount = ek_IntervalCount k, ex_CreatedAt = created,
                 ex_LocalProvenance = True, ex_FederationSyncID = 0 \<rparr>)"
proof -
  have sv: "sint mx < sint (ek_IntervalNumber k + ek_IntervalCount k) \<longleftrightarrow>
          sint mx < sint (ek_IntervalNumber k) + sint (ek_IntervalCount k) \<and>
          sint (ek_IntervalNumber k) + sint (ek_IntervalCount k) \<le> 2147483647"
    if "1 \<le> sint (ek_IntervalCount k)" "sint (ek_IntervalCount k) \<le> 144"
      "sint (ek_IntervalNumber k) < sint mx"
    using that by (rule still_valid_iff)
  show ?thesis
    unfolding TransformExposureKey_def
    using sv
    by (simp add: assms KeyLength_def MinIntervalCount_def MaxIntervalCount_def
        MinTransmissionRisk_def MaxTransmissionRisk_def os_Getenv_def Let_def not_less)
qed



lemma decode_keyB:
  "base64util_DecodeString keyB = Inr [16,17,18,19,20,21,22,23,24,25,26,27,28,29,30,31]"
  by (simp add: keyB_def sextets_def encodeStd_def)


lemma ParseBool_envSkip: "fst (strconv_ParseBool (envSkip ''SKIP_KEY_DATE_VALIDATION'')) = True"
  by (simp add: envSkip_def strconv_ParseBool_def)



section \<open>The batch\<close>

lemma TransformExposureKey_Inr:
  assumes "TransformExposureKey dec env k app regs created mn mx = Inr e"
  shows "e = \<lparr> ex_ExposureKey = projr (dec (ek_Key k)),
               ex_TransmissionRisk = ek_TransmissionRisk k,
               ex_AppPackageName = app, ex_Regions = regs,
               ex_IntervalNumber = ek_IntervalNumber k,
               ex_IntervalCount = ek_IntervalCount k, ex_CreatedAt = created,
               ex_LocalProvenance = True, ex_FederationSyncID = 0 \<rparr>"
    and "1 \<le> sint (ek_IntervalCount k)" and "sint (ek_IntervalCount k) \<le> 144"
    and "sint mn \<le> sint (ek_IntervalNumber k)" and "sint (ek_IntervalNumber k) < sint mx"
proof -
  obtain b where b: "dec (ek_Key k) = Inr b"
    using assms by (cases "dec (ek_Key k)") (simp_all add: TransformExposureKey_def)
  note d = TransformExposureKey_decoded [of dec k b env app regs created mn mx, OF b]
  show "e = \<lparr> ex_ExposureKey = projr (dec (ek_Key k)),
               ex_TransmissionRisk = ek_TransmissionRisk k,
               ex_AppPackageName = app, ex_Regions = regs,
               ex_IntervalNumber = ek_IntervalNumber k,
               ex_IntervalCount = ek_IntervalCount k, ex_CreatedAt = created,
               ex_LocalProvenance = True, ex_FederationSyncID = 0 \<rparr>"
    using assms unfolding d by (simp add: b split: if_splits)
  show "1 \<le> sint (ek_IntervalCount k)"
    using assms unfolding d by (simp split: if_splits)
  show "sint (ek_IntervalCount k) \<le> 144"
    using assms unfolding d by (simp split: if_splits)
  show "sint mn \<le> sint (ek_IntervalNumber k)"
    using assms unfolding d by (simp split: if_splits)
  show "sint (ek_IntervalNumber k) < sint mx"
    using assms unfolding d by (simp split: if_splits)
qed

lemma keyResult_recordOf:
  assumes "\<not> isl (keyResult dec env uni t p bt k)"
  shows "keyResult dec env uni t p bt k = Inr (recordOf dec uni t p bt k)"
proof -
  obtain e where e: "keyResult dec env uni t p bt k = Inr e"
    using assms by (cases "keyResult dec env uni t p bt k") simp_all
  show ?thesis
    using TransformExposureKey_Inr(1) [OF e] e by (simp add: recordOf_def)
qed

lemma transformKeys_ok:
  "\<forall>k\<in>set ks. \<not> isl (f k) \<Longrightarrow> transformKeys f ks acc = Inr (acc @ map (\<lambda>k. projr (f k)) ks)"
proof (induction ks arbitrary: acc)
  case Nil
  then show ?case by simp
next
  case (Cons k ks)
  then obtain e where e: "f k = Inr e" by (cases "f k") auto
  then show ?case using Cons by simp
qed

lemma transformKeys_fail:
  "\<forall>k\<in>set ks1. \<not> isl (f k) \<Longrightarrow> f k = Inl e \<Longrightarrow>
   transformKeys f (ks1 @ k # ks2) acc = Inl (InvalidPublishData e)"
proof (induction ks1 arbitrary: acc)
  case Nil
  then show ?case by simp
next
  case (Cons a ks1)
  then obtain x where x: "f a = Inr x" by (cases "f a") auto
  then show ?case using Cons by simp
qed

lemma transformKeys_Inr:
  "transformKeys f ks acc = Inr es \<Longrightarrow> \<forall>k\<in>set ks. \<not> isl (f k)"
proof (induction ks arbitrary: acc)
  case Nil
  then show ?case by simp
next
  case (Cons k ks)
  then show ?case by (cases "f k") auto
qed

lemma first_failure:
  assumes "\<exists>k\<in>set ks. isl (f k)"
  shows "\<exists>ks1 k ks2 e. ks = ks1 @ k # ks2 \<and> (\<forall>k'\<in>set ks1. \<not> isl (f k')) \<and> f k = Inl e"
proof -
  obtain ks1 k ks2 where s: "ks = ks1 @ k # ks2" "isl (f k)" "\<forall>k'\<in>set ks1. \<not> isl (f k')"
    using split_list_first_prop [OF assms] by blast
  then obtain e where "f k = Inl e" by (cases "f k") auto
  then show ?thesis using s by blast
qed

text \<open>The batch after the two guards on the number of keys.\<close>

lemma TransformPublish_unfold:
  assumes "Keys p \<noteq> []" and "int (length (Keys p)) \<le> maxExposureKeys t"
  shows "TransformPublish dec env uni long t p bt =
     (case transformKeys (keyResult dec env uni t p bt) (Keys p) [] of
        Inl err \<Rightarrow> Inl err
      | Inr entities \<Rightarrow>
          (case sort_Slice long entityLess entities of
             [] \<Rightarrow> Inl IndexOutOfRange
           | first # others \<Rightarrow>
               (case overlapScan (\<lambda>_. 0, ex_IntervalNumber first,
                        ex_IntervalNumber first + ex_IntervalCount first) (first # others) of
                  Inl err \<Rightarrow> Inl err
                | Inr _ \<Rightarrow> Inr (first # others))))"
  using assms by (simp add: TransformPublish_def Let_def)

lemma TransformPublish_Inr:
  assumes "TransformPublish dec env uni long t p bt = Inr es"
  shows "Keys p \<noteq> []" and "int (length (Keys p)) \<le> maxExposureKeys t"
    and "\<forall>k\<in>set (Keys p). \<not> isl (keyResult dec env uni t p bt k)"
    and "es = sort_Slice long entityLess (map (recordOf dec uni t p bt) (Keys p))"
proof -
  show g1: "Keys p \<noteq> []"
    using assms by (auto simp: TransformPublish_def)
  show g2: "int (length (Keys p)) \<le> maxExposureKeys t"
    using assms by (auto simp: TransformPublish_def split: if_splits)
  note u = TransformPublish_unfold [OF g1 g2, of dec env uni long bt]
  obtain entities where en: "transformKeys (keyResult dec env uni t p bt) (Keys p) [] = Inr entities"
    using assms unfolding u
    by (cases "transformKeys (keyResult dec env uni t p bt) (Keys p) []") simp_all
  show ok: "\<forall>k\<in>set (Keys p). \<not> isl (keyResult dec env uni t p bt k)"
    using transformKeys_Inr [OF en] .
  have "entities = map (\<lambda>k. projr (keyResult dec env uni t p bt k)) (Keys p)"
    using transformKeys_ok [OF ok, of "[]"] en by simp
  also have "\<dots> = map (recordOf dec uni t p bt) (Keys p)"
  proof -
    have "projr (keyResult dec env uni t p bt k) = recordOf dec uni t p bt k"
      if "k \<in> set (Keys p)" for k
    proof -
      have "\<not> isl (keyResult dec env uni t p bt k)" using ok that by blast
      from keyResult_recordOf [OF this] show ?thesis by (simp only: sum.sel)
    qed
    then show ?thesis by (simp only: map_eq_conv) blast
  qed
  finally have en': "entities = map (recordOf dec uni t p bt) (Keys p)" .
  show "es = sort_Slice long entityLess (map (recordOf dec uni t p bt) (Keys p))"
    using assms unfolding u en
    by (simp add: en' split: list.splits sum.splits)
qed

end
